theory Spec2Isabelle
  imports Complex_Main
begin

section \<open>Durable storage\<close>

text \<open>
  The browser's \<open>localStorage\<close>: a string-keyed store of strings. \<open>getItem\<close> answers
  \<open>null\<close> (here \<open>None\<close>) for a key that is not stored.
\<close>

type_synonym Storage = "string \<rightharpoonup> string"

definition getItem :: "Storage \<Rightarrow> string \<Rightarrow> string option" where
  "getItem st k = st k"

definition setItem :: "string \<Rightarrow> string \<Rightarrow> Storage \<Rightarrow> Storage" where
  "setItem k v st = st(k \<mapsto> v)"

definition removeItem :: "string \<Rightarrow> Storage \<Rightarrow> Storage" where
  "removeItem k st = st(k := None)"

text \<open>
  JavaScript truthiness of a \<open>string | null\<close> value, as tested by \<open>if (token)\<close>:
  \<open>null\<close> and the empty string are falsy, every other string is truthy.
\<close>

fun truthy :: "string option \<Rightarrow> bool" where
  "truthy None = False"
| "truthy (Some t) = (t \<noteq> [])"

section \<open>AuthContext: the session store\<close>

text \<open>
  The provider's two \<open>useState\<close> cells together with the storage they are kept
  beside. \<open>AuthProvider_init\<close> gives the cells their initial values
  (\<open>useState(false)\<close>, \<open>useState(true)\<close>) over whatever the storage holds at start-up.
\<close>

record AuthState =
  isAuthenticated :: bool
  loading :: bool
  localStorage :: Storage

definition AuthProvider_init :: "Storage \<Rightarrow> AuthState" where
  "AuthProvider_init st = \<lparr>isAuthenticated = False, loading = True, localStorage = st\<rparr>"

text \<open>
  The body of the mount effect of \<open>AuthProvider\<close> (the spec's \<open>initialize()\<close>), taken
  together with the render that commits its two state updates.
\<close>

definition initialize :: "AuthState \<Rightarrow> AuthState" where
  "initialize s =
     (let token = getItem (localStorage s) ''accessToken'';
          s1 = (if truthy token then s\<lparr>isAuthenticated := True\<rparr> else s)
      in s1\<lparr>loading := False\<rparr>)"

record Tokens =
  access :: string
  refresh :: string

text \<open>
  A state setter does not change the flag a reader holds: \<open>setIsAuthenticated\<close> only
  queues its argument, and the next render commits what is queued, oldest first. Writes to
  the storage take effect at once. \<open>Provider\<close> is the store between two renders:
  \<open>shown\<close> has the flags of the last render, which every reader of the context holds,
  next to the storage as it is now; \<open>queue\<close> has the arguments of the
  \<open>setIsAuthenticated\<close> calls not yet committed.
\<close>

record Provider =
  shown :: AuthState
  queue :: "bool list"

definition setIsAuthenticated :: "bool \<Rightarrow> Provider \<Rightarrow> Provider" where
  "setIsAuthenticated b p = p\<lparr>queue := queue p @ [b]\<rparr>"

definition render :: "Provider \<Rightarrow> Provider" where
  "render p =
     \<lparr>shown = foldl (\<lambda>s b. s\<lparr>isAuthenticated := b\<rparr>) (shown p) (queue p), queue = []\<rparr>"

text \<open>A store with nothing queued, showing \<open>s\<close>.\<close>

definition idle :: "AuthState \<Rightarrow> Provider" where
  "idle s = \<lparr>shown = s, queue = []\<rparr>"

text \<open>The bodies of \<open>login\<close> and \<open>logout\<close>, up to the return of the call.\<close>

definition login_call :: "Tokens \<Rightarrow> Provider \<Rightarrow> Provider" where
  "login_call tokens p =
     (let st1 = setItem ''accessToken'' (access tokens) (localStorage (shown p));
          st2 = setItem ''refreshToken'' (refresh tokens) st1
      in setIsAuthenticated True (p\<lparr>shown := (shown p)\<lparr>localStorage := st2\<rparr>\<rparr>))"

definition logout_call :: "Provider \<Rightarrow> Provider" where
  "logout_call p =
     (let st1 = removeItem ''accessToken'' (localStorage (shown p));
          st2 = removeItem ''refreshToken'' st1
      in setIsAuthenticated False (p\<lparr>shown := (shown p)\<lparr>localStorage := st2\<rparr>\<rparr>))"

text \<open>
  \<open>login\<close> and \<open>logout\<close> as a transition of the store from one render to the next:
  the call, made with nothing else queued, followed by the render that commits its update.
\<close>

definition login :: "Tokens \<Rightarrow> AuthState \<Rightarrow> AuthState" where
  "login tokens s = shown (render (login_call tokens (idle s)))"

definition logout :: "AuthState \<Rightarrow> AuthState" where
  "logout s = shown (render (logout_call (idle s)))"

text \<open>
  \<open>getAccessToken\<close> is a call on the store like the others, so it returns the state it
  leaves behind next to its result.
\<close>

definition getAccessToken :: "AuthState \<Rightarrow> string option \<times> AuthState" where
  "getAccessToken s = (getItem (localStorage s) ''accessToken'', s)"

text \<open>
  The value handed to \<open>AuthContext.Provider\<close> on a render: the two flags as they are in
  that render, and the three operations.
\<close>

record AuthContextType =
  ctx_isAuthenticated :: bool
  ctx_login :: "Tokens \<Rightarrow> AuthState \<Rightarrow> AuthState"
  ctx_logout :: "AuthState \<Rightarrow> AuthState"
  ctx_getAccessToken :: "AuthState \<Rightarrow> string option \<times> AuthState"
  ctx_loading :: bool

definition AuthProvider_value :: "AuthState \<Rightarrow> AuthContextType" where
  "AuthProvider_value s =
     \<lparr>ctx_isAuthenticated = isAuthenticated s, ctx_login = login, ctx_logout = logout,
      ctx_getAccessToken = getAccessToken, ctx_loading = loading s\<rparr>"

datatype Error = Error string

text \<open>
  \<open>useAuth\<close>: \<open>useContext\<close> yields \<open>null\<close> (\<open>None\<close>) when no provider is above the
  caller; the \<open>throw\<close> is the \<open>Inl\<close> branch.
\<close>

definition useAuth :: "AuthContextType option \<Rightarrow> Error + AuthContextType" where
  "useAuth context =
     (case context of
        None \<Rightarrow> Inl (Error ''useAuth must be used within an AuthProvider'')
      | Some c \<Rightarrow> Inr c)"

section \<open>ProtectedRoute: the route guard\<close>

text \<open>
  What the guard can return: the \<open>div\<close> with its text, the router's \<open>Navigate\<close>
  element with its \<open>to\<close> and \<open>replace\<close> props, or a fragment around the children.
\<close>

datatype 'v Element =
  Div string
| Navigate string bool
| Fragment 'v

text \<open>
  The component is run against the store: it receives the context of the current render
  and the store's state, and returns what it renders (or the error of \<open>useAuth\<close>)
  together with the state it leaves behind.
\<close>

definition ProtectedRoute ::
  "AuthContextType option \<Rightarrow> 'v \<Rightarrow> AuthState \<Rightarrow> (Error + 'v Element) \<times> AuthState" where
  "ProtectedRoute context children s =
     (case useAuth context of
        Inl e \<Rightarrow> (Inl e, s)
      | Inr c \<Rightarrow>
          if ctx_loading c then (Inr (Div ''Loading...''), s)
          else if \<not> ctx_isAuthenticated c then (Inr (Navigate ''/login'' True), s)
          else (Inr (Fragment children), s))"

text \<open>The guard as mounted under the provider, on the render that shows state \<open>s\<close>.\<close>

definition guard :: "'v \<Rightarrow> AuthState \<Rightarrow> (Error + 'v Element) \<times> AuthState" where
  "guard children s = ProtectedRoute (Some (AuthProvider_value s)) children s"

fun is_redirect :: "(Error + 'v Element) \<Rightarrow> bool" where
  "is_redirect (Inr (Navigate to r)) = True"
| "is_redirect _ = False"

section \<open>Sequences of calls on the session store\<close>

text \<open>
  \<open>run_calls\<close> runs a sequence of calls with a render after each of them;
  \<open>run_events\<close> below runs calls and renders in any order.
\<close>

datatype Call = Login Tokens | Logout

fun apply_call :: "Call \<Rightarrow> AuthState \<Rightarrow> AuthState" where
  "apply_call (Login tokens) s = login tokens s"
| "apply_call Logout s = logout s"

definition run_calls :: "Call list \<Rightarrow> AuthState \<Rightarrow> AuthState" where
  "run_calls cs s = foldl (\<lambda>st c. apply_call c st) s cs"

fun is_login :: "Call \<Rightarrow> bool" where
  "is_login (Login tokens) = True"
| "is_login Logout = False"

text \<open>
  What a reader of the flag and of the two storage entries must see once a call has
  returned: after a login the flag is set and both entries hold that login's tokens; after
  a logout the flag is clear and both entries are gone.
\<close>

fun mirrored :: "Call \<Rightarrow> AuthState \<Rightarrow> bool" where
  "mirrored (Login tokens) s =
     (isAuthenticated s \<and>
      getItem (localStorage s) ''accessToken'' = Some (access tokens) \<and>
      getItem (localStorage s) ''refreshToken'' = Some (refresh tokens))"
| "mirrored Logout s =
     (\<not> isAuthenticated s \<and>
      getItem (localStorage s) ''accessToken'' = None \<and>
      getItem (localStorage s) ''refreshToken'' = None)"

text \<open>
  What happens to the store between renders: a call is made, or a render commits the
  queue. Several calls may follow one another with no render in between, as they do
  inside one event handler.
\<close>

datatype Event = Invoke Call | Render

fun queue_call :: "Call \<Rightarrow> Provider \<Rightarrow> Provider" where
  "queue_call (Login tokens) p = login_call tokens p"
| "queue_call Logout p = logout_call p"

fun step :: "Event \<Rightarrow> Provider \<Rightarrow> Provider" where
  "step (Invoke c) p = queue_call c p"
| "step Render p = render p"

definition run_events :: "Event list \<Rightarrow> Provider \<Rightarrow> Provider" where
  "run_events es p = foldl (\<lambda>q e. step e q) p es"

fun calls_of :: "Event list \<Rightarrow> Call list" where
  "calls_of [] = []"
| "calls_of (Invoke c # es) = c # calls_of es"
| "calls_of (Render # es) = calls_of es"

text \<open>The storage half of \<open>mirrored\<close>: what a call leaves in the two entries.\<close>

fun stored :: "Call \<Rightarrow> Storage \<Rightarrow> bool" where
  "stored (Login tokens) st =
     (getItem st ''accessToken'' = Some (access tokens) \<and>
      getItem st ''refreshToken'' = Some (refresh tokens))"
| "stored Logout st =
     (getItem st ''accessToken'' = None \<and> getItem st ''refreshToken'' = None)"

section \<open>The navigation surface\<close>

text \<open>
  Modelled from the spec: the router that receives the guard's \<open>Navigate\<close> element is
  not part of the sources. The spec's words for it are that a redirect either replaces the
  current navigation-history entry or appends a new one, and that back-navigation returns
  to the entry before the current one. The history is a list of locations with the
  position of the current one; appending drops whatever lay ahead of the current entry.
\<close>

record History =
  entries :: "string list"
  index :: nat

definition current :: "History \<Rightarrow> string" where
  "current h = entries h ! index h"

definition navigate :: "string \<Rightarrow> bool \<Rightarrow> History \<Rightarrow> History" where
  "navigate to replace h =
     (if replace then h\<lparr>entries := (entries h)[index h := to]\<rparr>
      else \<lparr>entries = take (Suc (index h)) (entries h) @ [to], index = Suc (index h)\<rparr>)"

definition go_back :: "History \<Rightarrow> History" where
  "go_back h = h\<lparr>index := index h - 1\<rparr>"

text \<open>Committing what the guard rendered: only a \<open>Navigate\<close> element moves the history.\<close>

fun commit :: "(Error + 'v Element) \<Rightarrow> History \<Rightarrow> History" where
  "commit (Inr (Navigate to replace)) h = navigate to replace h"
| "commit _ h = h"

section \<open>DashboardPage: deleting a house\<close>

text \<open>
  A house as the dashboard holds it. \<open>id\<close> is the key the backend assigned, a whole
  number; the measures are JavaScript numbers. The fields \<open>length\<close> and \<open>id\<close> carry a
  prime because HOL already uses those names.
\<close>

record HouseForm =
  name :: string
  width :: real
  length' :: real
  height :: real
  floors :: real
  id' :: int

text \<open>
  The state cells \<open>handleDeleteHouse\<close> writes. The timers that clear a message two
  seconds later are left out, as are the cells the handler never touches.
\<close>

record DashboardState =
  houses :: "HouseForm list"
  successMessage :: "string option"
  errorMessage :: "string option"

text \<open>The outcome of \<open>await api.delete(...)\<close>: the promise resolves or rejects.\<close>

datatype ApiResult = Resolved | Rejected

text \<open>
  \<open>confirmed\<close> is the answer of \<open>window.confirm\<close>; \<open>response\<close> the outcome of
  the request, which is only sent when the user confirmed. The handler is a closure of
  the render that created it: the \<open>houses\<close> it filters after the \<open>await\<close> is the list
  of that render, here \<open>closure_houses\<close>, while \<open>s\<close> is the state of the page at the
  moment the request has returned and the handler goes on.
\<close>

definition handleDeleteHouse ::
  "HouseForm list \<Rightarrow> bool \<Rightarrow> ApiResult \<Rightarrow> int \<Rightarrow> DashboardState \<Rightarrow> DashboardState" where
  "handleDeleteHouse closure_houses confirmed response i s =
     (if \<not> confirmed then s
      else case response of
        Resolved \<Rightarrow>
          s\<lparr>houses := filter (\<lambda>house. id' house \<noteq> i) closure_houses,
            successMessage := Some ''House deleted successfully!''\<rparr>
      | Rejected \<Rightarrow>
          s\<lparr>errorMessage := Some ''Error deleting house. Please try again.''\<rparr>)"

section \<open>Auxiliary facts\<close>

lemma login_settled:
  "login tokens s =
     (let s1 = s\<lparr>localStorage := setItem ''accessToken'' (access tokens) (localStorage s)\<rparr>;
          s2 = s1\<lparr>localStorage := setItem ''refreshToken'' (refresh tokens) (localStorage s1)\<rparr>
      in s2\<lparr>isAuthenticated := True\<rparr>)"
  by (simp add: login_def login_call_def render_def idle_def setIsAuthenticated_def Let_def)

lemma logout_settled:
  "logout s =
     (let s1 = s\<lparr>localStorage := removeItem ''accessToken'' (localStorage s)\<rparr>;
          s2 = s1\<lparr>localStorage := removeItem ''refreshToken'' (localStorage s1)\<rparr>
      in s2\<lparr>isAuthenticated := False\<rparr>)"
  by (simp add: logout_def logout_call_def render_def idle_def setIsAuthenticated_def Let_def)

lemma localStorage_foldl:
  "localStorage (foldl (\<lambda>s b. s\<lparr>isAuthenticated := b\<rparr>) s bs) = localStorage s"
  by (induction bs arbitrary: s) simp_all

lemma localStorage_render: "localStorage (shown (render p)) = localStorage (shown p)"
  by (simp add: render_def localStorage_foldl)

lemma render_render: "render (render p) = render p"
  by (simp add: render_def)

lemma localStorage_queue_call: "stored c (localStorage (shown (queue_call c p)))"
  by (cases c)
     (simp_all add: login_call_def logout_call_def setIsAuthenticated_def getItem_def
        setItem_def removeItem_def)

lemma isAuthenticated_queue_call:
  "isAuthenticated (shown (queue_call c p)) = isAuthenticated (shown p)"
  by (cases c) (simp_all add: login_call_def logout_call_def setIsAuthenticated_def)

lemma isAuthenticated_render_queue_call:
  "isAuthenticated (shown (render (queue_call c p))) = is_login c"
  by (cases c) (simp_all add: login_call_def logout_call_def setIsAuthenticated_def render_def)

lemma run_events_snoc: "run_events (es @ [e]) p = step e (run_events es p)"
  by (simp add: run_events_def)

lemma calls_of_snoc:
  "calls_of (es @ [e]) = (case e of Invoke c \<Rightarrow> calls_of es @ [c] | Render \<Rightarrow> calls_of es)"
  by (induction es rule: calls_of.induct) (simp_all split: Event.split)

lemma mirrored_iff:
  "mirrored c s \<longleftrightarrow> isAuthenticated s = is_login c \<and> stored c (localStorage s)"
  by (cases c) auto

lemma run_events_last_call:
  "calls_of es \<noteq> [] \<Longrightarrow>
     stored (last (calls_of es)) (localStorage (shown (run_events es p))) \<and>
     isAuthenticated (shown (render (run_events es p))) = is_login (last (calls_of es))"
proof (induction es rule: rev_induct)
  case Nil
  then show ?case by simp
next
  case (snoc e es)
  show ?case
  proof (cases e)
    case (Invoke c)
    then show ?thesis
      by (simp add: run_events_snoc calls_of_snoc localStorage_queue_call
            isAuthenticated_render_queue_call)
  next
    case Render
    with snoc show ?thesis
      by (simp add: run_events_snoc calls_of_snoc localStorage_render render_render)
  qed
qed

lemma run_calls_snoc: "run_calls (cs @ [c]) s = apply_call c (run_calls cs s)"
  by (simp add: run_calls_def)

lemma run_calls_last:
  "cs \<noteq> [] \<Longrightarrow> run_calls cs s = apply_call (last cs) (run_calls (butlast cs) s)"
  using run_calls_snoc [of "butlast cs" "last cs" s] by simp

lemma handleDeleteHouse_houses:
  "houses (handleDeleteHouse closure_houses True Resolved i s) =
     filter (\<lambda>house. id' house \<noteq> i) closure_houses \<and>
   houses (handleDeleteHouse closure_houses True Rejected i s) = houses s \<and>
   houses (handleDeleteHouse closure_houses False response i s) = houses s"
  by (simp add: handleDeleteHouse_def)

section \<open>The route guard\<close>

text \<open>
  Claim C1. For every pair of flags the provider supplies and every protected view, what
  the guard renders is determined by the pair alone: while \<open>loading\<close> it is the
  placeholder, which is neither a redirect nor the view; otherwise, when not authenticated,
  it is the redirect to \<open>/login\<close>; otherwise it is the view itself. Two renders with the
  same pair of flags give the same output, whatever else differs in the context or store.
\<close>

theorem ProtectedRoute_output:
  "(ctx_loading c \<longrightarrow>
      fst (ProtectedRoute (Some c) children s) = Inr (Div ''Loading...'') \<and>
      \<not> is_redirect (fst (ProtectedRoute (Some c) children s)) \<and>
      fst (ProtectedRoute (Some c) children s) \<noteq> Inr (Fragment children)) \<and>
   (\<not> ctx_loading c \<and> \<not> ctx_isAuthenticated c \<longrightarrow>
      fst (ProtectedRoute (Some c) children s) = Inr (Navigate ''/login'' True)) \<and>
   (\<not> ctx_loading c \<and> ctx_isAuthenticated c \<longrightarrow>
      fst (ProtectedRoute (Some c) children s) = Inr (Fragment children)) \<and>
   (ctx_loading c' = ctx_loading c \<and> ctx_isAuthenticated c' = ctx_isAuthenticated c \<longrightarrow>
      fst (ProtectedRoute (Some c') children s') = fst (ProtectedRoute (Some c) children s))"
  by (simp add: useAuth_def ProtectedRoute_def)

theorem ProtectedRoute_output_witness:
  "fst (guard ''dashboard'' (AuthProvider_init [''accessToken'' \<mapsto> ''abc''])) = Inr (Div ''Loading...'') \<and>
   fst (guard ''dashboard'' (initialize (AuthProvider_init Map.empty))) = Inr (Navigate ''/login'' True) \<and>
   fst (guard ''dashboard'' (initialize (AuthProvider_init [''accessToken'' \<mapsto> ''abc'']))) =
     Inr (Fragment ''dashboard'')"
proof -
  let ?s1 = "AuthProvider_init [''accessToken'' \<mapsto> ''abc'']"
  let ?s2 = "initialize (AuthProvider_init Map.empty)"
  let ?s3 = "initialize (AuthProvider_init [''accessToken'' \<mapsto> ''abc''])"
  have l1: "ctx_loading (AuthProvider_value ?s1)"
    by (simp add: AuthProvider_value_def AuthProvider_init_def)
  have l2: "\<not> ctx_loading (AuthProvider_value ?s2) \<and> \<not> ctx_isAuthenticated (AuthProvider_value ?s2)"
    by (simp add: AuthProvider_value_def AuthProvider_init_def initialize_def getItem_def)
  have l3: "\<not> ctx_loading (AuthProvider_value ?s3) \<and> ctx_isAuthenticated (AuthProvider_value ?s3)"
    by (simp add: AuthProvider_value_def AuthProvider_init_def initialize_def getItem_def)
  from ProtectedRoute_output [of "AuthProvider_value ?s1" "''dashboard''" ?s1 "AuthProvider_value ?s1" ?s1] l1
  have a: "fst (guard ''dashboard'' ?s1) = Inr (Div ''Loading...'')"
    unfolding guard_def by blast
  from ProtectedRoute_output [of "AuthProvider_value ?s2" "''dashboard''" ?s2 "AuthProvider_value ?s2" ?s2] l2
  have b: "fst (guard ''dashboard'' ?s2) = Inr (Navigate ''/login'' True)"
    unfolding guard_def by blast
  from ProtectedRoute_output [of "AuthProvider_value ?s3" "''dashboard''" ?s3 "AuthProvider_value ?s3" ?s3] l3
  have c: "fst (guard ''dashboard'' ?s3) = Inr (Fragment ''dashboard'')"
    unfolding guard_def by blast
  from a b c show ?thesis by blast
qed

text \<open>
  Claim C7. When the guard turns an unauthenticated request away, the \<open>Navigate\<close> element
  it returns carries \<open>replace\<close>. Committed to a history whose current entry is the blocked
  view, it overwrites that entry with \<open>/login\<close>: the history keeps its length and
  position, every other entry is as before, and going back lands on the entry that came
  before the blocked view. Had the redirect been appended instead, going back would land on
  the blocked view again.
\<close>

theorem redirect_replaces_history_entry:
  assumes "\<not> ctx_loading c" and "\<not> ctx_isAuthenticated c" and "index h < length (entries h)"
  shows "fst (ProtectedRoute (Some c) children s) = Inr (Navigate ''/login'' True) \<and>
         (let h' = commit (fst (ProtectedRoute (Some c) children s)) h in
            length (entries h') = length (entries h) \<and>
            index h' = index h \<and>
            current h' = ''/login'' \<and>
            (\<forall>i. i \<noteq> index h \<longrightarrow> entries h' ! i = entries h ! i) \<and>
            (0 < index h \<longrightarrow> current (go_back h') = entries h ! (index h - 1))) \<and>
         current (go_back (navigate ''/login'' False h)) = current h"
proof -
  have out: "fst (ProtectedRoute (Some c) children s) = Inr (Navigate ''/login'' True)"
    using assms(1,2) by (simp add: ProtectedRoute_def useAuth_def)
  have h': "commit (Inr (Navigate ''/login'' True)) h = h\<lparr>entries := (entries h)[index h := ''/login'']\<rparr>"
    by (simp add: navigate_def)
  have appended: "current (go_back (navigate ''/login'' False h)) = current h"
    using assms(3) by (simp add: navigate_def go_back_def current_def nth_append)
  show ?thesis
    unfolding out h' Let_def using assms(3) appended
    by (simp add: current_def go_back_def)
qed

theorem redirect_replaces_history_entry_witness:
  "current (commit (fst (guard ''dashboard'' (initialize (AuthProvider_init Map.empty))))
      \<lparr>entries = [''/'', ''/dashboard''], index = 1\<rparr>) = ''/login'' \<and>
   current (go_back (commit (fst (guard ''dashboard'' (initialize (AuthProvider_init Map.empty))))
      \<lparr>entries = [''/'', ''/dashboard''], index = 1\<rparr>)) = ''/''"
proof -
  let ?s = "initialize (AuthProvider_init Map.empty)"
  let ?c = "AuthProvider_value ?s"
  let ?h = "\<lparr>entries = [''/'', ''/dashboard''], index = 1\<rparr>"
  have a: "\<not> ctx_loading ?c" and b: "\<not> ctx_isAuthenticated ?c"
    by (simp_all add: AuthProvider_value_def initialize_def AuthProvider_init_def getItem_def)
  have i: "index ?h < length (entries ?h)" by simp
  have p: "0 < index ?h" by simp
  have e: "entries ?h ! (index ?h - 1) = ''/''" by simp
  from redirect_replaces_history_entry [OF a b i, of "''dashboard''" ?s] p e
  show ?thesis unfolding guard_def Let_def by metis
qed

text \<open>
  Claim C8. Running the guard leaves the session store as it found it: the flags and the
  storage after the call are those before it, with or without a provider, and so also for
  the guard mounted under the provider.
\<close>

theorem ProtectedRoute_frame:
  "snd (ProtectedRoute context children s) = s \<and> snd (guard children s) = s"
  by (simp add: ProtectedRoute_def guard_def split: sum.split)

text \<open>
  Claim C9. Without a provider \<open>useAuth\<close> raises its error and returns no context; with a
  provider it returns the context it was given. The guard, which starts by calling
  \<open>useAuth\<close>, fails with the same error outside a provider.
\<close>

theorem useAuth_throws_outside_provider:
  "useAuth None = Inl (Error ''useAuth must be used within an AuthProvider'') \<and>
   (\<forall>c. useAuth None \<noteq> Inr c) \<and>
   useAuth (Some c) = Inr c \<and>
   fst (ProtectedRoute None children s) = Inl (Error ''useAuth must be used within an AuthProvider'')"
  by (simp add: useAuth_def ProtectedRoute_def)

section \<open>The session store\<close>

text \<open>
  Claim C2, as amended. Take any sequence of login and logout calls and renders, in any
  order, with at least one call in it, from any state of the store and with anything
  queued. The storage entries are written by the call itself: right after each call they
  hold that login's two tokens, or are both gone after a logout. The flag is not: at the
  return of a call a reader still holds the flag of the last render. Once the render
  after the sequence has committed the queue, the flag is set exactly when the last call
  was a login, and flag and storage agree.
\<close>

theorem last_call_wins_after_render:
  assumes "calls_of es \<noteq> []"
  shows "isAuthenticated (shown (render (run_events es p))) = is_login (last (calls_of es)) \<and>
         mirrored (last (calls_of es)) (shown (render (run_events es p))) \<and>
         (\<forall>n c. n < length es \<and> es ! n = Invoke c \<longrightarrow>
            stored c (localStorage (shown (run_events (take (Suc n) es) p)))) \<and>
         (\<forall>c q. isAuthenticated (shown (queue_call c q)) = isAuthenticated (shown q))"
proof (intro conjI allI impI)
  show flag: "isAuthenticated (shown (render (run_events es p))) = is_login (last (calls_of es))"
    using run_events_last_call [OF assms] by simp
  show "mirrored (last (calls_of es)) (shown (render (run_events es p)))"
    using run_events_last_call [OF assms, of p] flag
    by (simp add: mirrored_iff localStorage_render)
next
  fix n c assume n: "n < length es \<and> es ! n = Invoke c"
  then have "take (Suc n) es = take n es @ [Invoke c]"
    by (simp add: take_Suc_conv_app_nth)
  then show "stored c (localStorage (shown (run_events (take (Suc n) es) p)))"
    by (simp add: run_events_snoc localStorage_queue_call)
next
  fix c q show "isAuthenticated (shown (queue_call c q)) = isAuthenticated (shown q)"
    by (rule isAuthenticated_queue_call)
qed

theorem last_call_wins_after_render_witness:
  "calls_of [Invoke (Login \<lparr>access = ''a1'', refresh = ''r1''\<rparr>), Invoke Logout, Render,
             Invoke (Login \<lparr>access = ''a2'', refresh = ''r2''\<rparr>)] \<noteq> [] \<and>
   isAuthenticated (shown (render (run_events
     [Invoke (Login \<lparr>access = ''a1'', refresh = ''r1''\<rparr>), Invoke Logout, Render,
      Invoke (Login \<lparr>access = ''a2'', refresh = ''r2''\<rparr>)]
     (idle (initialize (AuthProvider_init Map.empty)))))) \<and>
   stored Logout (localStorage (shown (run_events
     [Invoke (Login \<lparr>access = ''a1'', refresh = ''r1''\<rparr>), Invoke Logout]
     (idle (initialize (AuthProvider_init Map.empty))))))"
proof -
  let ?es = "[Invoke (Login \<lparr>access = ''a1'', refresh = ''r1''\<rparr>), Invoke Logout, Render,
              Invoke (Login \<lparr>access = ''a2'', refresh = ''r2''\<rparr>)]"
  let ?p = "idle (initialize (AuthProvider_init Map.empty))"
  have ne: "calls_of ?es \<noteq> []" by simp
  note t = last_call_wins_after_render [OF ne, of ?p]
  from t have a: "isAuthenticated (shown (render (run_events ?es ?p)))" by simp
  have n: "(1::nat) < length ?es \<and> ?es ! 1 = Invoke Logout" by simp
  from t n have "stored Logout (localStorage (shown (run_events (take (Suc 1) ?es) ?p)))"
    by blast
  then have b: "stored Logout (localStorage (shown (run_events
     [Invoke (Login \<lparr>access = ''a1'', refresh = ''r1''\<rparr>), Invoke Logout] ?p)))"
    by (simp add: numeral_2_eq_2)
  from ne a b show ?thesis by blast
qed

text \<open>
  From the unauthenticated store, at the return of a login the access token is in the
  storage while the flag a reader holds is still clear: the last call was a login and
  the flag is not set, and the storage has what the flag denies.
\<close>

theorem login_stale_flag_counterexample:
  "\<not> isAuthenticated (shown (login_call \<lparr>access = ''a1'', refresh = ''r1''\<rparr>
       (idle (initialize (AuthProvider_init Map.empty))))) \<and>
   getItem (localStorage (shown (login_call \<lparr>access = ''a1'', refresh = ''r1''\<rparr>
       (idle (initialize (AuthProvider_init Map.empty)))))) ''accessToken'' = Some ''a1''"
  by (simp add: login_call_def setIsAuthenticated_def idle_def initialize_def
        AuthProvider_init_def getItem_def setItem_def)

text \<open>
  Claim C3, as amended. Started from the provider's initial state over any storage,
  \<open>initialize\<close> leaves the store authenticated when the access-token entry is present and
  not the empty string, and unauthenticated when the entry is absent or holds the empty
  string; in every case \<open>loading\<close>, true before, is false afterwards (from any state at
  all), and the storage is as it was.
\<close>

theorem initialize_resolves:
  "(getItem st ''accessToken'' = None \<longrightarrow>
      \<not> isAuthenticated (initialize (AuthProvider_init st))) \<and>
   (getItem st ''accessToken'' = Some [] \<longrightarrow>
      \<not> isAuthenticated (initialize (AuthProvider_init st))) \<and>
   (\<forall>t. getItem st ''accessToken'' = Some t \<and> t \<noteq> [] \<longrightarrow>
      isAuthenticated (initialize (AuthProvider_init st))) \<and>
   loading (AuthProvider_init st) \<and>
   \<not> loading (initialize (AuthProvider_init st)) \<and>
   \<not> loading (initialize s) \<and>
   localStorage (initialize (AuthProvider_init st)) = st"
  by (simp add: initialize_def AuthProvider_init_def Let_def)

theorem initialize_resolves_witness:
  "getItem [''accessToken'' \<mapsto> ''abc'', ''refreshToken'' \<mapsto> ''xyz''] ''accessToken'' = Some ''abc'' \<and>
   isAuthenticated (initialize (AuthProvider_init [''accessToken'' \<mapsto> ''abc'', ''refreshToken'' \<mapsto> ''xyz''])) \<and>
   getItem Map.empty ''accessToken'' = None \<and>
   \<not> isAuthenticated (initialize (AuthProvider_init Map.empty)) \<and>
   \<not> loading (initialize (AuthProvider_init Map.empty))"
proof -
  let ?st = "[''accessToken'' \<mapsto> ''abc'', ''refreshToken'' \<mapsto> ''xyz'']"
  have p: "getItem ?st ''accessToken'' = Some ''abc''" by (simp add: getItem_def)
  have q: "getItem Map.empty ''accessToken'' = None" by (simp add: getItem_def)
  have n: "''abc'' \<noteq> []" by simp
  from initialize_resolves [of ?st] p n
  have a: "isAuthenticated (initialize (AuthProvider_init ?st))" by blast
  from initialize_resolves [of Map.empty] q
  have b: "\<not> isAuthenticated (initialize (AuthProvider_init Map.empty)) \<and>
           \<not> loading (initialize (AuthProvider_init Map.empty))" by blast
  from p q a b show ?thesis by blast
qed

text \<open>
  An access-token entry that is present but holds the empty string is falsy for the
  test \<open>if (token)\<close>: the entry is there and the store stays unauthenticated.
\<close>

theorem initialize_present_entry_counterexample:
  "getItem [''accessToken'' \<mapsto> ''''] ''accessToken'' = Some '''' \<and>
   \<not> isAuthenticated (initialize (AuthProvider_init [''accessToken'' \<mapsto> '''']))"
  by (simp add: initialize_def AuthProvider_init_def getItem_def)

text \<open>
  Claim C4, as amended. \<open>getAccessToken\<close> returns what the access-token entry of the
  storage holds at the time of the call, \<open>null\<close> when there is none, whatever the flags
  say, and leaves the store unchanged. So after a login it is that login's access token,
  after a logout it is \<open>null\<close>, at the end of any non-empty sequence of logins and logouts
  it is decided by the last call, and after \<open>initialize\<close> over a storage whose access
  token is \<open>abc\<close> it is \<open>abc\<close>, with the store authenticated.
\<close>

theorem getAccessToken_reads_storage:
  "fst (getAccessToken s) = localStorage s ''accessToken'' \<and>
   snd (getAccessToken s) = s \<and>
   fst (getAccessToken (login tokens s)) = Some (access tokens) \<and>
   fst (getAccessToken (logout s)) = None \<and>
   (cs \<noteq> [] \<longrightarrow>
      fst (getAccessToken (run_calls cs s)) =
        (case last cs of Login t \<Rightarrow> Some (access t) | Logout \<Rightarrow> None)) \<and>
   (getItem st ''accessToken'' = Some ''abc'' \<longrightarrow>
      fst (getAccessToken (initialize (AuthProvider_init st))) = Some ''abc'' \<and>
      isAuthenticated (initialize (AuthProvider_init st)))"
proof -
  have "fst (getAccessToken (run_calls cs s)) =
        (case last cs of Login t \<Rightarrow> Some (access t) | Logout \<Rightarrow> None)" if "cs \<noteq> []"
    using that
    by (cases "last cs")
       (simp_all add: run_calls_last getAccessToken_def login_settled logout_settled getItem_def
          setItem_def removeItem_def)
  then show ?thesis
    by (simp add: getAccessToken_def login_settled logout_settled initialize_def AuthProvider_init_def
          getItem_def setItem_def removeItem_def)
qed

theorem getAccessToken_reads_storage_witness:
  "getItem [''accessToken'' \<mapsto> ''abc'', ''refreshToken'' \<mapsto> ''xyz''] ''accessToken'' = Some ''abc'' \<and>
   fst (getAccessToken (initialize
     (AuthProvider_init [''accessToken'' \<mapsto> ''abc'', ''refreshToken'' \<mapsto> ''xyz'']))) = Some ''abc'' \<and>
   fst (getAccessToken (run_calls [Logout, Login \<lparr>access = ''a1'', refresh = ''r1''\<rparr>]
     (AuthProvider_init Map.empty))) = Some ''a1''"
proof -
  let ?st = "[''accessToken'' \<mapsto> ''abc'', ''refreshToken'' \<mapsto> ''xyz'']"
  let ?cs = "[Logout, Login \<lparr>access = ''a1'', refresh = ''r1''\<rparr>]"
  have p: "getItem ?st ''accessToken'' = Some ''abc''" by (simp add: getItem_def)
  have ne: "?cs \<noteq> []" by simp
  from getAccessToken_reads_storage [of _ _ "[]" ?st] p
  have a: "fst (getAccessToken (initialize (AuthProvider_init ?st))) = Some ''abc''" by blast
  from getAccessToken_reads_storage [of "AuthProvider_init Map.empty" _ ?cs Map.empty] ne
  have "fst (getAccessToken (run_calls ?cs (AuthProvider_init Map.empty))) =
        (case last ?cs of Login t \<Rightarrow> Some (access t) | Logout \<Rightarrow> None)" by blast
  then have b: "fst (getAccessToken (run_calls ?cs (AuthProvider_init Map.empty))) = Some ''a1''"
    by simp
  from p a b show ?thesis by blast
qed

text \<open>
  On the first render, before the mount effect has run, the store is not authenticated,
  yet \<open>getAccessToken\<close> already answers with the stored token rather than \<open>null\<close>.
\<close>

theorem getAccessToken_unauthenticated_counterexample:
  "\<not> isAuthenticated (AuthProvider_init [''accessToken'' \<mapsto> ''abc'']) \<and>
   fst (getAccessToken (AuthProvider_init [''accessToken'' \<mapsto> ''abc''])) = Some ''abc''"
  by (simp add: getAccessToken_def AuthProvider_init_def getItem_def)

text \<open>
  Claim C5, as amended. \<open>logout\<close> has no precondition: from every state it leaves the
  storage without an access-token and without a refresh-token entry, the flag clear, the
  \<open>loading\<close> flag and every other storage entry as they were. It changes nothing when
  the flag is already clear and the storage holds neither entry, so a second logout after
  a logout changes nothing. After a login the flag is set and both tokens are stored;
  a logout right after it leaves neither entry and the flag clear.
\<close>

theorem logout_clears_session:
  "getItem (localStorage (logout s)) ''accessToken'' = None \<and>
   getItem (localStorage (logout s)) ''refreshToken'' = None \<and>
   \<not> isAuthenticated (logout s) \<and>
   loading (logout s) = loading s \<and>
   (k \<noteq> ''accessToken'' \<and> k \<noteq> ''refreshToken'' \<longrightarrow>
      getItem (localStorage (logout s)) k = getItem (localStorage s) k) \<and>
   (\<not> isAuthenticated s \<and> getItem (localStorage s) ''accessToken'' = None \<and>
    getItem (localStorage s) ''refreshToken'' = None \<longrightarrow> logout s = s) \<and>
   logout (logout s) = logout s \<and>
   mirrored (Login tokens) (login tokens s) \<and>
   mirrored Logout (logout (login tokens s))"
proof -
  have noop: "logout s = s"
    if "\<not> isAuthenticated s" "getItem (localStorage s) ''accessToken'' = None"
       "getItem (localStorage s) ''refreshToken'' = None"
  proof -
    have "(localStorage s)(''accessToken'' := None, ''refreshToken'' := None) = localStorage s"
      using that by (auto simp add: getItem_def fun_eq_iff)
    then show ?thesis using that by (simp add: logout_settled removeItem_def)
  qed
  have idem: "logout (logout s) = logout s"
    by (simp add: logout_settled removeItem_def fun_eq_iff)
  show ?thesis
    using noop idem
    by (simp add: logout_settled login_settled getItem_def removeItem_def setItem_def)
qed

theorem logout_clears_session_witness:
  "mirrored Logout (logout (login \<lparr>access = ''a1'', refresh = ''r1''\<rparr> (initialize (AuthProvider_init Map.empty)))) \<and>
   logout (initialize (AuthProvider_init Map.empty)) = initialize (AuthProvider_init Map.empty) \<and>
   getItem (localStorage (logout (AuthProvider_init [''theme'' \<mapsto> ''dark'', ''accessToken'' \<mapsto> ''abc''])))
     ''theme'' = Some ''dark''"
proof -
  let ?s = "initialize (AuthProvider_init Map.empty)"
  let ?u = "AuthProvider_init [''theme'' \<mapsto> ''dark'', ''accessToken'' \<mapsto> ''abc'']"
  have pre: "\<not> isAuthenticated ?s \<and> getItem (localStorage ?s) ''accessToken'' = None \<and>
    getItem (localStorage ?s) ''refreshToken'' = None"
    by (simp add: initialize_def AuthProvider_init_def getItem_def)
  have k: "''theme'' \<noteq> ''accessToken'' \<and> ''theme'' \<noteq> ''refreshToken''" by simp
  from logout_clears_session [of ?s "''theme''" "\<lparr>access = ''a1'', refresh = ''r1''\<rparr>"] pre
  have a: "mirrored Logout (logout (login \<lparr>access = ''a1'', refresh = ''r1''\<rparr> ?s)) \<and> logout ?s = ?s"
    by blast
  from logout_clears_session [of ?u "''theme''" "\<lparr>access = ''a1'', refresh = ''r1''\<rparr>"] k
  have "getItem (localStorage (logout ?u)) ''theme'' = getItem (localStorage ?u) ''theme''"
    by blast
  then have b: "getItem (localStorage (logout ?u)) ''theme'' = Some ''dark''"
    by (simp add: AuthProvider_init_def getItem_def)
  from a b show ?thesis by blast
qed

text \<open>
  A storage that holds a refresh token and no access token resolves to an unauthenticated
  store which still has the refresh entry; \<open>logout\<close> there removes it, so the state after
  the call is not the state before it.
\<close>

theorem logout_unauthenticated_counterexample:
  "\<not> isAuthenticated (initialize (AuthProvider_init [''refreshToken'' \<mapsto> ''xyz''])) \<and>
   \<not> loading (initialize (AuthProvider_init [''refreshToken'' \<mapsto> ''xyz''])) \<and>
   getItem (localStorage (initialize (AuthProvider_init [''refreshToken'' \<mapsto> ''xyz''])))
     ''refreshToken'' = Some ''xyz'' \<and>
   getItem (localStorage (logout (initialize (AuthProvider_init [''refreshToken'' \<mapsto> ''xyz'']))))
     ''refreshToken'' = None \<and>
   logout (initialize (AuthProvider_init [''refreshToken'' \<mapsto> ''xyz''])) \<noteq>
     initialize (AuthProvider_init [''refreshToken'' \<mapsto> ''xyz''])"
proof -
  let ?s = "initialize (AuthProvider_init [''refreshToken'' \<mapsto> ''xyz''])"
  have a: "getItem (localStorage ?s) ''refreshToken'' = Some ''xyz''"
    by (simp add: initialize_def AuthProvider_init_def getItem_def)
  have b: "getItem (localStorage (logout ?s)) ''refreshToken'' = None"
    by (simp add: logout_settled getItem_def removeItem_def)
  from a b have c: "logout ?s \<noteq> ?s" by force
  have d: "\<not> isAuthenticated ?s \<and> \<not> loading ?s"
    by (simp add: initialize_def AuthProvider_init_def getItem_def)
  from a b c d show ?thesis by blast
qed

text \<open>
  Claim C6. \<open>initialize\<close> is idempotent: from any state, and so over any storage content,
  running it a second time gives the state the first run gave, flags and storage alike;
  and it never writes the storage.
\<close>

theorem initialize_idempotent:
  "initialize (initialize s) = initialize s \<and>
   localStorage (initialize s) = localStorage s"
  by (simp add: initialize_def Let_def)

section \<open>The dashboard\<close>

text \<open>
  Claim C10 asks that a successful delete leaves the list that was there before it
  without the deleted house. The handler filters the list of the render that created it
  instead. With houses A, B and C shown, the user confirms the delete of A and then of C
  before either request has returned, so both handlers hold the list A, B, C. When the
  first request returns the list becomes B, C. When the second returns the list becomes
  A, B: house A, deleted by the first, is back, and the result is not the list B, C
  without C, which is B alone.
\<close>

theorem delete_house_overlapping_deletes:
  "houses (handleDeleteHouse
      [\<lparr>name = ''A'', width = 4, length' = 5, height = 3, floors = 1, id' = 1\<rparr>,
       \<lparr>name = ''B'', width = 6, length' = 7, height = 3, floors = 2, id' = 2\<rparr>,
       \<lparr>name = ''C'', width = 8, length' = 9, height = 3, floors = 1, id' = 3\<rparr>]
      True Resolved 1
      \<lparr>houses = [\<lparr>name = ''A'', width = 4, length' = 5, height = 3, floors = 1, id' = 1\<rparr>,
                 \<lparr>name = ''B'', width = 6, length' = 7, height = 3, floors = 2, id' = 2\<rparr>,
                 \<lparr>name = ''C'', width = 8, length' = 9, height = 3, floors = 1, id' = 3\<rparr>],
       successMessage = None, errorMessage = None\<rparr>) =
     [\<lparr>name = ''B'', width = 6, length' = 7, height = 3, floors = 2, id' = 2\<rparr>,
      \<lparr>name = ''C'', width = 8, length' = 9, height = 3, floors = 1, id' = 3\<rparr>] \<and>
   houses (handleDeleteHouse
      [\<lparr>name = ''A'', width = 4, length' = 5, height = 3, floors = 1, id' = 1\<rparr>,
       \<lparr>name = ''B'', width = 6, length' = 7, height = 3, floors = 2, id' = 2\<rparr>,
       \<lparr>name = ''C'', width = 8, length' = 9, height = 3, floors = 1, id' = 3\<rparr>]
      True Resolved 3
      (handleDeleteHouse
        [\<lparr>name = ''A'', width = 4, length' = 5, height = 3, floors = 1, id' = 1\<rparr>,
         \<lparr>name = ''B'', width = 6, length' = 7, height = 3, floors = 2, id' = 2\<rparr>,
         \<lparr>name = ''C'', width = 8, length' = 9, height = 3, floors = 1, id' = 3\<rparr>]
        True Resolved 1
        \<lparr>houses = [\<lparr>name = ''A'', width = 4, length' = 5, height = 3, floors = 1, id' = 1\<rparr>,
                   \<lparr>name = ''B'', width = 6, length' = 7, height = 3, floors = 2, id' = 2\<rparr>,
                   \<lparr>name = ''C'', width = 8, length' = 9, height = 3, floors = 1, id' = 3\<rparr>],
         successMessage = None, errorMessage = None\<rparr>)) =
     [\<lparr>name = ''A'', width = 4, length' = 5, height = 3, floors = 1, id' = 1\<rparr>,
      \<lparr>name = ''B'', width = 6, length' = 7, height = 3, floors = 2, id' = 2\<rparr>] \<and>
   filter (\<lambda>house. id' house \<noteq> 3)
     [\<lparr>name = ''B'', width = 6, length' = 7, height = 3, floors = 2, id' = 2\<rparr>,
      \<lparr>name = ''C'', width = 8, length' = 9, height = 3, floors = 1, id' = 3\<rparr>] =
     [\<lparr>name = ''B'', width = 6, length' = 7, height = 3, floors = 2, id' = 2\<rparr>]"
  by (simp add: handleDeleteHouse_def)

end
